theory Spec2Isabelle
  imports Main "HOL-Library.Multiset"
begin

section \<open>Data model (src/types/game.ts)\<close>

text \<open>
  The interfaces of \<^verbatim>\<open>types/game.ts\<close> as records. The field \<^verbatim>\<open>id\<close> of a card is
  called \<open>card_id\<close> here, since \<open>id\<close> is the identity function of HOL. Card ids are the
  array indices handed out by \<^verbatim>\<open>map((emoji, index) => ...)\<close>, so they are naturals, and
  so are the three counters, which only ever start at 0 and grow by 1.
\<close>

record Card =
  card_id :: nat
  emoji :: string
  isFlipped :: bool
  isMatched :: bool

record GameStats =
  moves :: nat
  matches :: nat
  timeElapsed :: nat
  isGameComplete :: bool

datatype Difficulty = easy | medium | hard

record DifficultyConfig =
  gridSize :: nat
  timeLimit :: "nat option"
  label :: string

section \<open>Constants of MemoryGame.tsx\<close>

text \<open>
  Every entry of \<^verbatim>\<open>CARD_EMOJIS\<close> is one code point of the block U+1F380..U+1F3BF; as
  UTF-8 these are the four bytes F0 9F 8E xx. Two entries are equal strings exactly when
  their last bytes agree. The catalog has 18 entries; entry 13 repeats entry 1 (U+1F3AF).
\<close>

definition sym :: "char \<Rightarrow> string" where
  "sym c = [CHR 0xF0, CHR 0x9F, CHR 0x8E, c]"

definition CARD_EMOJIS :: "string list" where
  "CARD_EMOJIS =
     [sym (CHR 0xAE), sym (CHR 0xAF), sym (CHR 0xB2), sym (CHR 0xAA), sym (CHR 0xA8),
      sym (CHR 0xAD), sym (CHR 0xB8), sym (CHR 0xBA), sym (CHR 0xBB), sym (CHR 0xB9),
      sym (CHR 0xA4), sym (CHR 0xA7), sym (CHR 0xAC), sym (CHR 0xAF), sym (CHR 0x8A),
      sym (CHR 0x89), sym (CHR 0x81), sym (CHR 0x80)]"

fun DIFFICULTY_CONFIG :: "Difficulty \<Rightarrow> DifficultyConfig" where
  "DIFFICULTY_CONFIG easy = \<lparr>gridSize = 4, timeLimit = None, label = ''Easy (4x4)''\<rparr>"
| "DIFFICULTY_CONFIG medium = \<lparr>gridSize = 6, timeLimit = None, label = ''Medium (6x6)''\<rparr>"
| "DIFFICULTY_CONFIG hard = \<lparr>gridSize = 8, timeLimit = None, label = ''Hard (8x8)''\<rparr>"

section \<open>Component state\<close>

text \<open>
  The six \<^verbatim>\<open>useState\<close> cells of the component, and the callbacks handed to
  \<^verbatim>\<open>setTimeout\<close> that have not run yet. A callback closes over \<^verbatim>\<open>newFlippedCards\<close>,
  the two ids of the click that scheduled it; everything else it reads through the
  functional updaters, that is from the state at the moment it runs. The component keeps
  no handle of a timeout and never calls \<^verbatim>\<open>clearTimeout\<close>.
\<close>

datatype callback = MatchFound "nat list" | NoMatch "nat list"

record Timeout =
  callback :: callback
  delay :: nat

record MemoryGame =
  cards :: "Card list"
  flippedCards :: "nat list"
  stats :: GameStats
  difficulty :: Difficulty
  gameStarted :: bool
  isClickable :: bool
  timeouts :: "Timeout list"

definition initial :: MemoryGame where
  "initial =
     \<lparr>cards = [], flippedCards = [],
      stats = \<lparr>moves = 0, matches = 0, timeElapsed = 0, isGameComplete = False\<rparr>,
      difficulty = easy, gameStarted = False, isClickable = True, timeouts = []\<rparr>"

section \<open>Deck construction: initializeGame\<close>

text \<open>
  \<^verbatim>\<open>pairedEmojis.sort(() => Math.random() - 0.5)\<close> reorders the array in place by a
  comparator that answers at random. Which order comes out depends on the engine's sort
  and on the random numbers; what is certain is that the result is a reordering of the
  array. The model takes the random outcome as an argument: a list of naturals, each of
  which picks the next element among those not yet placed. Every list yields a
  permutation (\<open>mset_sort_random\<close>) and every permutation is yielded by some list
  (\<open>sort_random_any_order\<close>); the empty list leaves the order as it is.
\<close>

fun sort_random :: "nat list \<Rightarrow> 'a list \<Rightarrow> 'a list" where
  "sort_random [] xs = xs"
| "sort_random (r # rs) [] = []"
| "sort_random (r # rs) (x # xs) =
     (let k = r mod length (x # xs)
      in (x # xs) ! k # sort_random rs (take k (x # xs) @ drop (Suc k) (x # xs)))"

text \<open>
  \<^verbatim>\<open>(config.gridSize * config.gridSize) / 2\<close> is a float division; \<^verbatim>\<open>slice(0, n)\<close>
  truncates its bound to an integer and stops at the end of the array, which is \<open>take\<close>
  with \<open>div\<close>. For the three grid sizes the quotient is whole anyway: 8, 18 and 32.
\<close>

definition totalCards :: "Difficulty \<Rightarrow> nat" where
  "totalCards d = (gridSize (DIFFICULTY_CONFIG d) * gridSize (DIFFICULTY_CONFIG d)) div 2"

definition pairedEmojis :: "string list \<Rightarrow> Difficulty \<Rightarrow> string list" where
  "pairedEmojis catalog d =
     (let selectedEmojis = take (totalCards d) catalog
      in selectedEmojis @ selectedEmojis)"

definition shuffledCards :: "string list \<Rightarrow> Difficulty \<Rightarrow> nat list \<Rightarrow> Card list" where
  "shuffledCards catalog d rnd =
     map (\<lambda>(index, e). \<lparr>card_id = index, emoji = e, isFlipped = False, isMatched = False\<rparr>)
       (enumerate 0 (sort_random rnd (pairedEmojis catalog d)))"

text \<open>
  \<open>initializeGame_with\<close> is \<^verbatim>\<open>initializeGame\<close> with the catalog as a parameter;
  the component's own function uses the constant \<^verbatim>\<open>CARD_EMOJIS\<close>. It sets four of the
  state cells and touches neither \<^verbatim>\<open>gameStarted\<close> nor the scheduled timeouts.
\<close>

definition initializeGame_with :: "string list \<Rightarrow> nat list \<Rightarrow> MemoryGame \<Rightarrow> MemoryGame" where
  "initializeGame_with catalog rnd s =
     s\<lparr>cards := shuffledCards catalog (difficulty s) rnd,
       flippedCards := [],
       stats := \<lparr>moves = 0, matches = 0, timeElapsed = 0, isGameComplete = False\<rparr>,
       isClickable := True\<rparr>"

definition initializeGame :: "nat list \<Rightarrow> MemoryGame \<Rightarrow> MemoryGame" where
  "initializeGame = initializeGame_with CARD_EMOJIS"

definition startGame :: "nat list \<Rightarrow> MemoryGame \<Rightarrow> MemoryGame" where
  "startGame rnd s = initializeGame rnd (s\<lparr>gameStarted := True\<rparr>)"

definition resetGame :: "nat list \<Rightarrow> MemoryGame \<Rightarrow> MemoryGame" where
  "resetGame rnd s = initializeGame rnd s"

text \<open>The deck's symbols, and on how many cards a symbol sits.\<close>

definition symbols :: "Card list \<Rightarrow> string list" where
  "symbols cs = map emoji cs"

definition occurrences :: "Card list \<Rightarrow> string \<Rightarrow> nat" where
  "occurrences cs e = length (filter (\<lambda>c. emoji c = e) cs)"

section \<open>Turn handling: GameCard.handleClick and handleCardClick\<close>

text \<open>
  \<^verbatim>\<open>cards.find(card => card.id === id)!\<close> yields \<^verbatim>\<open>undefined\<close> when no card has the id
  (the \<^verbatim>\<open>!\<close> is erased by the compiler), and reading \<^verbatim>\<open>.emoji\<close> of it throws a
  TypeError. The model returns the error as a value.
\<close>

datatype error = TypeError

definition find_card :: "Card list \<Rightarrow> nat \<Rightarrow> Card option" where
  "find_card cs i = List.find (\<lambda>c. card_id c = i) cs"

text \<open>
  \<^verbatim>\<open>handleCardClick\<close> reads \<^verbatim>\<open>flippedCards\<close> and \<^verbatim>\<open>cards\<close> of the render it was
  created in; the handler of a click belongs to the latest render, so these are the
  current state. The lookup of the two cards uses the cards as they were before the
  click's own \<^verbatim>\<open>setCards\<close>. The scheduled callback is appended to the timeouts.
\<close>

definition handleCardClick :: "MemoryGame \<Rightarrow> nat \<Rightarrow> error + MemoryGame" where
  "handleCardClick s cardId =
     (if length (flippedCards s) = 2 then Inr s
      else
        let cards' = map (\<lambda>c. if card_id c = cardId then c\<lparr>isFlipped := True\<rparr> else c)
                       (cards s);
            newFlippedCards = flippedCards s @ [cardId]
        in if length newFlippedCards = 2 then
             (case (find_card (cards s) (newFlippedCards ! 0),
                    find_card (cards s) (newFlippedCards ! 1)) of
                (Some firstCard, Some secondCard) \<Rightarrow>
                  Inr (s\<lparr>cards := cards',
                         flippedCards := newFlippedCards,
                         isClickable := False,
                         stats := (stats s)\<lparr>moves := moves (stats s) + 1\<rparr>,
                         timeouts := timeouts s @
                           [if emoji firstCard = emoji secondCard
                            then \<lparr>callback = MatchFound newFlippedCards, delay = 600\<rparr>
                            else \<lparr>callback = NoMatch newFlippedCards, delay = 1200\<rparr>]\<rparr>)
              | _ \<Rightarrow> Inl TypeError)
           else Inr (s\<lparr>cards := cards', flippedCards := newFlippedCards\<rparr>))"

text \<open>
  The click handler of one rendered card, with the three props of \<^verbatim>\<open>GameCard\<close>:
  the card, the closure \<^verbatim>\<open>onClick\<close> and \<^verbatim>\<open>isClickable\<close>.
\<close>

definition GameCard_handleClick ::
  "Card \<Rightarrow> (MemoryGame \<Rightarrow> error + MemoryGame) \<Rightarrow> bool \<Rightarrow> MemoryGame \<Rightarrow> error + MemoryGame" where
  "GameCard_handleClick c onClick clickable s =
     (if clickable \<and> \<not> isFlipped c \<and> \<not> isMatched c then onClick s else Inr s)"

text \<open>The two callbacks given to \<^verbatim>\<open>setTimeout\<close>, run on the state they find.\<close>

fun runCallback :: "callback \<Rightarrow> MemoryGame \<Rightarrow> MemoryGame" where
  "runCallback (MatchFound newFlippedCards) s =
     s\<lparr>cards := map (\<lambda>c. if card_id c \<in> set newFlippedCards
                            then c\<lparr>isMatched := True\<rparr> else c) (cards s),
       stats := (stats s)\<lparr>matches := matches (stats s) + 1\<rparr>,
       flippedCards := [],
       isClickable := True\<rparr>"
| "runCallback (NoMatch newFlippedCards) s =
     s\<lparr>cards := map (\<lambda>c. if card_id c \<in> set newFlippedCards
                            then c\<lparr>isFlipped := False\<rparr> else c) (cards s),
       flippedCards := [],
       isClickable := True\<rparr>"

section \<open>Effects: session clock and completion check\<close>

text \<open>
  The interval exists while \<^verbatim>\<open>gameStarted && !stats.isGameComplete\<close>; the effect's
  cleanup clears it when either changes. \<open>timerTick\<close> is one firing of the interval, and
  does nothing when there is no interval.
\<close>

definition timerTick :: "MemoryGame \<Rightarrow> MemoryGame" where
  "timerTick s =
     (if \<not> gameStarted s \<or> isGameComplete (stats s) then s
      else s\<lparr>stats := (stats s)\<lparr>timeElapsed := timeElapsed (stats s) + 1\<rparr>\<rparr>)"

definition completionEffect :: "MemoryGame \<Rightarrow> MemoryGame" where
  "completionEffect s =
     (if length (cards s) > 0 \<and> list_all isMatched (cards s)
      then s\<lparr>stats := (stats s)\<lparr>isGameComplete := True\<rparr>\<rparr>
      else s)"

text \<open>
  \<^verbatim>\<open>onClick={() => handleCardClick(card.id)}\<close>, together with the render that the
  handler causes: the early return of \<^verbatim>\<open>handleCardClick\<close> calls no setter, every other
  path calls \<^verbatim>\<open>setCards\<close>, after which the completion effect runs.
\<close>

definition onClick :: "nat \<Rightarrow> MemoryGame \<Rightarrow> error + MemoryGame" where
  "onClick cardId s =
     (if length (flippedCards s) = 2 then handleCardClick s cardId
      else map_sum (\<lambda>e. e) completionEffect (handleCardClick s cardId))"

section \<open>The component as a transition system\<close>

text \<open>
  One event is handled to completion, the component renders, and the completion effect
  runs if \<^verbatim>\<open>cards\<close> was set (its dependency list is \<^verbatim>\<open>[cards]\<close>, and every
  \<^verbatim>\<open>setCards\<close> of the component stores a fresh array). The controls exist only on the
  screen that shows them: the difficulty select and the start button while
  \<^verbatim>\<open>!gameStarted\<close>, the grid and the two other buttons while \<^verbatim>\<open>gameStarted\<close>; an event
  on a control that is not on screen leaves the state as it is. \<open>CardClick i\<close> is a
  click on the \<open>i\<close>-th card of the grid, \<open>TimeoutFires k\<close> the firing of the \<open>k\<close>-th
  scheduled callback (any one may be next: the two delays differ), and the lists carried
  by \<open>StartGame\<close> and \<open>ResetGame\<close> are the outcome of the shuffle.
\<close>

datatype event =
    SetDifficulty Difficulty
  | StartGame "nat list"
  | ResetGame "nat list"
  | ChangeDifficulty
  | CardClick nat
  | TimeoutFires nat
  | TimerTick

fun step :: "MemoryGame \<Rightarrow> event \<Rightarrow> error + MemoryGame" where
  "step s (SetDifficulty d) = Inr (if gameStarted s then s else s\<lparr>difficulty := d\<rparr>)"
| "step s (StartGame rnd) =
     Inr (if gameStarted s then s else completionEffect (startGame rnd s))"
| "step s (ResetGame rnd) =
     Inr (if gameStarted s then completionEffect (resetGame rnd s) else s)"
| "step s ChangeDifficulty = Inr (if gameStarted s then s\<lparr>gameStarted := False\<rparr> else s)"
| "step s (CardClick i) =
     (if gameStarted s \<and> i < length (cards s)
      then GameCard_handleClick (cards s ! i) (onClick (card_id (cards s ! i))) (isClickable s) s
      else Inr s)"
| "step s (TimeoutFires k) =
     Inr (if k < length (timeouts s)
          then completionEffect
                 (runCallback (callback (timeouts s ! k))
                    (s\<lparr>timeouts := take k (timeouts s) @ drop (Suc k) (timeouts s)\<rparr>))
          else s)"
| "step s TimerTick = Inr (timerTick s)"

text \<open>
  A list of events, one after the other. An error ends the run; from the initial state
  none arises (\<open>run_initial\<close>).
\<close>

fun run :: "MemoryGame \<Rightarrow> event list \<Rightarrow> error + MemoryGame" where
  "run s [] = Inr s"
| "run s (e # es) = (case step s e of Inl x \<Rightarrow> Inl x | Inr s' \<Rightarrow> run s' es)"

text \<open>Events that call \<^verbatim>\<open>initializeGame\<close>.\<close>

fun restarts :: "event \<Rightarrow> bool" where
  "restarts (StartGame rnd) = True"
| "restarts (ResetGame rnd) = True"
| "restarts e = False"

section \<open>Invariant of the reachable states\<close>

text \<open>
  What every state of the component satisfies between two events: the id of a card is its
  position in the deck, the selected ids are ids of the deck, clicking is enabled exactly
  while fewer than two cards are selected, the completion flag says that the deck is not
  empty and fully matched, and a started game has a deck. \<open>prewf\<close> is the same before
  the completion effect has run: the flag may still be missing.
\<close>

definition wellformed :: "MemoryGame \<Rightarrow> bool" where
  "wellformed s \<longleftrightarrow>
     map card_id (cards s) = [0..<length (cards s)]
     \<and> (\<forall>x \<in> set (flippedCards s). x < length (cards s))
     \<and> (isClickable s \<longrightarrow> length (flippedCards s) \<le> 1)
     \<and> (\<not> isClickable s \<longrightarrow> length (flippedCards s) = 2)
     \<and> (isGameComplete (stats s) \<longleftrightarrow> cards s \<noteq> [] \<and> list_all isMatched (cards s))
     \<and> (gameStarted s \<longrightarrow> cards s \<noteq> [])"

definition prewf :: "MemoryGame \<Rightarrow> bool" where
  "prewf s \<longleftrightarrow>
     map card_id (cards s) = [0..<length (cards s)]
     \<and> (\<forall>x \<in> set (flippedCards s). x < length (cards s))
     \<and> (isClickable s \<longrightarrow> length (flippedCards s) \<le> 1)
     \<and> (\<not> isClickable s \<longrightarrow> length (flippedCards s) = 2)
     \<and> (isGameComplete (stats s) \<longrightarrow> cards s \<noteq> [] \<and> list_all isMatched (cards s))
     \<and> (gameStarted s \<longrightarrow> cards s \<noteq> [])"

text \<open>
  What the scheduled callbacks hold: each one captured two ids, and the two ids of a
  mismatch are different.
\<close>

definition pendingPairs :: "MemoryGame \<Rightarrow> bool" where
  "pendingPairs s \<longleftrightarrow>
     (\<forall>t \<in> set (timeouts s).
        case callback t of
          MatchFound ids \<Rightarrow> length ids = 2
        | NoMatch ids \<Rightarrow> length ids = 2 \<and> distinct ids)"

text \<open>
  The state after a list of events from the initial state. No event raises from there
  (\<open>run_initial\<close>), so the projection is always of an \<open>Inr\<close>.
\<close>

definition state_after :: "event list \<Rightarrow> MemoryGame" where
  "state_after evs = projr (run initial evs)"

definition matchedIds :: "MemoryGame \<Rightarrow> nat list" where
  "matchedIds s = map card_id (filter isMatched (cards s))"

text \<open>
  A whole game on easy with the deck in catalog order: card \<open>i\<close> and card \<open>i + 8\<close>
  carry the same symbol, and each pair is selected and committed in turn.
\<close>

definition playthrough :: "event list" where
  "playthrough =
     [StartGame [],
      CardClick 0, CardClick 8, TimeoutFires 0, CardClick 1, CardClick 9, TimeoutFires 0,
      CardClick 2, CardClick 10, TimeoutFires 0, CardClick 3, CardClick 11, TimeoutFires 0,
      CardClick 4, CardClick 12, TimeoutFires 0, CardClick 5, CardClick 13, TimeoutFires 0,
      CardClick 6, CardClick 14, TimeoutFires 0, CardClick 7, CardClick 15, TimeoutFires 0]"


section \<open>Facts about the shuffle and the deck\<close>

lemma mset_sort_random: "mset (sort_random rs xs) = mset xs"
proof (induction rs xs rule: sort_random.induct)
  case (3 r rs x xs)
  let ?ys = "x # xs"
  let ?k = "r mod length ?ys"
  have k: "?k < length ?ys" by simp
  have "mset ?ys = mset (take ?k ?ys @ ?ys ! ?k # drop (Suc ?k) ?ys)"
    using id_take_nth_drop [OF k] by simp
  then have "mset ?ys = add_mset (?ys ! ?k) (mset (take ?k ?ys @ drop (Suc ?k) ?ys))"
    by simp
  with 3 show ?case by (simp add: Let_def)
qed simp_all

lemma length_sort_random: "length (sort_random rs xs) = length xs"
  using mset_sort_random [of rs xs] by (metis size_mset)

lemma set_sort_random: "set (sort_random rs xs) = set xs"
  using mset_sort_random [of rs xs] by (metis set_mset_mset)

lemma sort_random_any_order: "mset ys = mset xs \<Longrightarrow> \<exists>rs. sort_random rs xs = ys"
proof (induction ys arbitrary: xs)
  case Nil
  then have "xs = []" by simp
  then have "sort_random [] xs = []" by simp
  then show ?case by blast
next
  case (Cons y ys)
  then have "y \<in> set xs" by (metis list.set_intros(1) set_mset_mset)
  then obtain k where k: "k < length xs" and xk: "xs ! k = y"
    by (auto simp: in_set_conv_nth)
  obtain z zs where xs: "xs = z # zs" using k by (cases xs) auto
  have "mset xs = add_mset y (mset (take k xs @ drop (Suc k) xs))"
    using id_take_nth_drop [OF k] xk by (metis mset.simps(2) mset_append union_mset_add_mset_right)
  with Cons.prems have "mset ys = mset (take k xs @ drop (Suc k) xs)" by simp
  from Cons.IH [OF this] obtain rs where rs: "sort_random rs (take k xs @ drop (Suc k) xs) = ys"
    by blast
  have "sort_random (k # rs) xs = y # ys"
    using k xk rs unfolding xs by (simp add: Let_def)
  then show ?case by blast
qed

lemma length_shuffledCards:
  "length (shuffledCards catalog d rnd) = 2 * min (length catalog) (totalCards d)"
  by (simp add: shuffledCards_def pairedEmojis_def Let_def length_sort_random min.commute)

lemma symbols_shuffledCards:
  "symbols (shuffledCards catalog d rnd) = sort_random rnd (pairedEmojis catalog d)"
proof -
  have "map emoji (map (\<lambda>(index, e). \<lparr>card_id = index, emoji = e, isFlipped = False,
          isMatched = False\<rparr>) (enumerate n xs)) = xs" for n and xs :: "string list"
    by (induction xs arbitrary: n) simp_all
  then show ?thesis by (simp add: symbols_def shuffledCards_def)
qed

lemma occurrences_count: "occurrences cs e = count (mset (symbols cs)) e"
  by (induction cs) (simp_all add: occurrences_def symbols_def)

lemma occurrences_shuffledCards:
  "occurrences (shuffledCards catalog d rnd) e
     = 2 * count (mset (take (totalCards d) catalog)) e"
  by (simp add: occurrences_count symbols_shuffledCards mset_sort_random pairedEmojis_def Let_def)

lemma totalCards_values: "totalCards easy = 8" "totalCards medium = 18" "totalCards hard = 32"
  by (simp_all add: totalCards_def)

section \<open>The invariant holds in every reachable state\<close>

lemma ids_shuffledCards:
  "map card_id (shuffledCards catalog d rnd) = [0..<length (shuffledCards catalog d rnd)]"
  by (simp add: shuffledCards_def comp_def case_prod_beta map_fst_enumerate [unfolded comp_def])

lemma unmatched_shuffledCards: "c \<in> set (shuffledCards catalog d rnd) \<Longrightarrow> \<not> isMatched c \<and> \<not> isFlipped c"
  by (auto simp: shuffledCards_def)

lemma completionEffect_initializeGame_with:
  "completionEffect (initializeGame_with catalog rnd s) = initializeGame_with catalog rnd s"
proof -
  let ?cs = "shuffledCards catalog (difficulty s) rnd"
  have "\<not> (length ?cs > 0 \<and> list_all isMatched ?cs)"
  proof
    assume a: "length ?cs > 0 \<and> list_all isMatched ?cs"
    then obtain c where "c \<in> set ?cs" by (cases ?cs) auto
    with a unmatched_shuffledCards [of c] show False by (auto simp: list_all_iff)
  qed
  then show ?thesis by (simp add: completionEffect_def initializeGame_with_def)
qed

lemma length_deck_pos: "0 < length (shuffledCards CARD_EMOJIS d rnd)"
  by (cases d) (simp_all add: length_shuffledCards totalCards_values CARD_EMOJIS_def)

lemma wellformed_initial: "wellformed initial"
  by (simp add: wellformed_def initial_def)

lemma wellformed_initializeGame:
  "wellformed (initializeGame rnd s)"
  using length_deck_pos [of "difficulty s" rnd] unmatched_shuffledCards [of _ CARD_EMOJIS "difficulty s" rnd]
  by (simp add: wellformed_def initializeGame_def initializeGame_with_def ids_shuffledCards list_all_iff)

lemma find_card_index:
  assumes "map card_id cs = [0..<length cs]" "i < length cs"
  shows "find_card cs i = Some (cs ! i)"
proof -
  have id: "card_id (cs ! j) = j" if "j < length cs" for j
    using assms(1) that by (metis add_0 length_map nth_map nth_upt)
  show ?thesis
    unfolding find_card_def find_Some_iff
    using assms(2) id by (intro exI [of _ i]) auto
qed

lemma wellformed_prewf: "wellformed s \<Longrightarrow> prewf s"
  by (simp add: wellformed_def prewf_def)

lemma wellformed_completionEffect: "prewf s \<Longrightarrow> wellformed (completionEffect s)"
  by (auto simp: wellformed_def prewf_def completionEffect_def)

lemma ids_flip: "map card_id (map (\<lambda>c. if P c then c\<lparr>isFlipped := b\<rparr> else c) cs) = map card_id cs"
  by (induction cs) auto

lemma ids_match: "map card_id (map (\<lambda>c. if P c then c\<lparr>isMatched := b\<rparr> else c) cs) = map card_id cs"
  by (induction cs) auto

lemma matched_flip:
  "list_all isMatched (map (\<lambda>c. if P c then c\<lparr>isFlipped := b\<rparr> else c) cs) = list_all isMatched cs"
  by (induction cs) auto

lemma matched_match:
  "list_all isMatched cs \<Longrightarrow> list_all isMatched (map (\<lambda>c. if P c then c\<lparr>isMatched := True\<rparr> else c) cs)"
  by (induction cs) auto

lemma prewf_runCallback:
  assumes "wellformed s"
  shows "prewf (runCallback cb (s\<lparr>timeouts := ts\<rparr>))"
proof (cases cb)
  case (MatchFound ids)
  with assms show ?thesis
    using ids_match [of _ True "cards s"] matched_match [of "cards s"]
    by (simp add: wellformed_def prewf_def)
next
  case (NoMatch ids)
  with assms show ?thesis
    using ids_flip [of _ False "cards s"] matched_flip [of _ False "cards s"]
    by (simp add: wellformed_def prewf_def)
qed

lemma handleCardClick_wellformed:
  assumes wf: "wellformed s" and i: "i < length (cards s)" and cl: "isClickable s"
  shows "\<exists>s'. handleCardClick s (card_id (cards s ! i)) = Inr s' \<and> prewf s'
           \<and> flippedCards s' = flippedCards s @ [i]
           \<and> moves (stats s') = (if flippedCards s = [] then moves (stats s) else moves (stats s) + 1)"
proof -
  from wf have ids: "map card_id (cards s) = [0..<length (cards s)]"
    and fl: "\<forall>x \<in> set (flippedCards s). x < length (cards s)"
    and fin: "isGameComplete (stats s) \<longrightarrow> cards s \<noteq> [] \<and> list_all isMatched (cards s)"
    and st: "gameStarted s \<longrightarrow> cards s \<noteq> []"
    by (simp_all add: wellformed_def)
  from wf cl have len: "length (flippedCards s) \<le> 1" by (simp add: wellformed_def)
  have idi: "card_id (cards s ! i) = i"
    using ids i by (metis add_0 length_map nth_map nth_upt)
  note upd = ids_flip [of _ True "cards s"] matched_flip [of _ True "cards s"]
  show ?thesis
  proof (cases "flippedCards s")
    case Nil
    with ids fl fin st i cl idi upd show ?thesis
      by (simp add: handleCardClick_def prewf_def Let_def)
  next
    case (Cons a as)
    with len have as: "as = []" by simp
    from fl Cons have a: "a < length (cards s)" by simp
    from Cons as ids fl fin st i cl idi upd a
      find_card_index [OF ids a] find_card_index [OF ids i]
    show ?thesis
      by (simp add: handleCardClick_def prewf_def Let_def)
  qed
qed

lemma wellformed_step:
  assumes "wellformed s"
  shows "\<exists>s'. step s e = Inr s' \<and> wellformed s'"
proof (cases e)
  case (SetDifficulty d)
  with assms show ?thesis by (simp add: wellformed_def)
next
  case (StartGame rnd)
  with assms wellformed_initializeGame [of rnd "s\<lparr>gameStarted := True\<rparr>"] show ?thesis
    by (simp add: startGame_def initializeGame_def completionEffect_initializeGame_with)
next
  case (ResetGame rnd)
  with assms wellformed_initializeGame [of rnd s] show ?thesis
    by (simp add: resetGame_def initializeGame_def completionEffect_initializeGame_with)
next
  case ChangeDifficulty
  with assms show ?thesis by (simp add: wellformed_def)
next
  case (CardClick i)
  show ?thesis
  proof (cases "gameStarted s \<and> i < length (cards s) \<and> isClickable s
                 \<and> \<not> isFlipped (cards s ! i) \<and> \<not> isMatched (cards s ! i)")
    case True
    then have i: "i < length (cards s)" and cl: "isClickable s" by simp_all
    from handleCardClick_wellformed [OF assms i cl] obtain s'
      where s': "handleCardClick s (card_id (cards s ! i)) = Inr s'" "prewf s'" by blast
    from assms cl have "length (flippedCards s) \<noteq> 2" by (simp add: wellformed_def)
    with True s' CardClick wellformed_completionEffect [OF s'(2)] show ?thesis
      by (simp add: GameCard_handleClick_def onClick_def)
  next
    case False
    with assms CardClick show ?thesis
      by (auto simp: GameCard_handleClick_def onClick_def wellformed_def)
  qed
next
  case (TimeoutFires k)
  with assms wellformed_completionEffect [OF prewf_runCallback [OF assms]] show ?thesis
    by simp
next
  case TimerTick
  with assms show ?thesis by (simp add: wellformed_def timerTick_def)
qed

lemma wellformed_run:
  "wellformed s \<Longrightarrow> \<exists>s'. run s evs = Inr s' \<and> wellformed s'"
proof (induction evs arbitrary: s)
  case Nil
  then show ?case by simp
next
  case (Cons e evs)
  from wellformed_step [OF Cons.prems, of e] obtain s1
    where s1: "step s e = Inr s1" "wellformed s1" by blast
  from Cons.IH [OF s1(2)] s1(1) show ?case by simp
qed

lemma run_initial: "\<exists>s. run initial evs = Inr s \<and> wellformed s"
  by (rule wellformed_run [OF wellformed_initial])

lemma run_state_after: "run initial evs = Inr (state_after evs)"
  using run_initial [of evs] by (auto simp: state_after_def)

lemma wellformed_state_after: "wellformed (state_after evs)"
  using run_initial [of evs] by (auto simp: state_after_def)

section \<open>Evaluation of concrete sessions\<close>

lemmas game_eval =
  state_after_def initial_def startGame_def resetGame_def initializeGame_def
  initializeGame_with_def shuffledCards_def pairedEmojis_def totalCards_def CARD_EMOJIS_def
  sym_def GameCard_handleClick_def onClick_def handleCardClick_def find_card_def
  completionEffect_def timerTick_def Let_def enumerate_eq_zip matchedIds_def

lemma state_after_start:
  "state_after [SetDifficulty d, StartGame rnd] =
     initial\<lparr>difficulty := d, gameStarted := True,
       cards := shuffledCards CARD_EMOJIS d rnd, flippedCards := [],
       stats := \<lparr>moves = 0, matches = 0, timeElapsed = 0, isGameComplete = False\<rparr>,
       isClickable := True\<rparr>"
proof -
  have "initializeGame_with CARD_EMOJIS rnd (initial\<lparr>difficulty := d, gameStarted := True\<rparr>)
          = initial\<lparr>difficulty := d, gameStarted := True,
              cards := shuffledCards CARD_EMOJIS d rnd, flippedCards := [],
              stats := \<lparr>moves = 0, matches = 0, timeElapsed = 0, isGameComplete = False\<rparr>,
              isClickable := True\<rparr>"
    by (simp add: initializeGame_with_def)
  then show ?thesis
    using completionEffect_initializeGame_with
            [of CARD_EMOJIS rnd "initial\<lparr>difficulty := d, gameStarted := True\<rparr>"]
    by (simp add: state_after_def startGame_def initializeGame_def initial_def)
qed

lemma completionEffect_fields:
  "cards (completionEffect s) = cards s"
  "flippedCards (completionEffect s) = flippedCards s"
  "isClickable (completionEffect s) = isClickable s"
  "gameStarted (completionEffect s) = gameStarted s"
  "difficulty (completionEffect s) = difficulty s"
  "timeouts (completionEffect s) = timeouts s"
  "moves (stats (completionEffect s)) = moves (stats s)"
  "matches (stats (completionEffect s)) = matches (stats s)"
  "timeElapsed (stats (completionEffect s)) = timeElapsed (stats s)"
  by (simp_all add: completionEffect_def)

section \<open>C1: size and pairing of the deck\<close>

text \<open>
  On easy the deck is as the specification wants it: 16 cards, and every symbol of the
  deck on exactly two of them, whatever the shuffle.
\<close>

lemma easy_deck_pairs:
  "length (cards (state_after [SetDifficulty easy, StartGame rnd])) = 16
   \<and> (\<forall>e \<in> set (symbols (cards (state_after [SetDifficulty easy, StartGame rnd]))).
         occurrences (cards (state_after [SetDifficulty easy, StartGame rnd])) e = 2)"
  by (simp add: state_after_start length_shuffledCards occurrences_shuffledCards
        symbols_shuffledCards set_sort_random pairedEmojis_def totalCards_values
        CARD_EMOJIS_def sym_def)

lemma medium_deck_quadruple:
  "length (cards (state_after [SetDifficulty medium, StartGame rnd])) = 36
   \<and> occurrences (cards (state_after [SetDifficulty medium, StartGame rnd])) (sym (CHR 0xAF)) = 4"
  by (simp add: state_after_start length_shuffledCards occurrences_shuffledCards
        totalCards_values CARD_EMOJIS_def sym_def)

text \<open>
  C1. Claimed: for every difficulty the deck built at session start has
  \<open>gridSize\<^sup>2\<close> cards and every symbol of the deck is on exactly two cards. On hard the
  code does otherwise, for every outcome of the shuffle: the grid is 8 by 8, that is 64
  places, and the deck has 36 cards, the 18 entries of the catalog twice; the symbol
  U+1F3AF, which the catalog lists twice, is on four cards.
\<close>

theorem hard_deck_has_36_cards:
  "gridSize (DIFFICULTY_CONFIG hard) * gridSize (DIFFICULTY_CONFIG hard) = 64
   \<and> length (cards (state_after [SetDifficulty hard, StartGame rnd])) = 36
   \<and> occurrences (cards (state_after [SetDifficulty hard, StartGame rnd])) (sym (CHR 0xAF)) = 4"
  by (simp add: state_after_start length_shuffledCards occurrences_shuffledCards
        totalCards_values CARD_EMOJIS_def sym_def)

theorem hard_deck_has_36_cards_witness:
  "run initial [SetDifficulty hard, StartGame []]
     = Inr (state_after [SetDifficulty hard, StartGame []])
   \<and> gameStarted (state_after [SetDifficulty hard, StartGame []])
   \<and> length (cards (state_after [SetDifficulty hard, StartGame []])) = 36
   \<and> occurrences (cards (state_after [SetDifficulty hard, StartGame []])) (sym (CHR 0xAF)) = 4"
  using hard_deck_has_36_cards [of "[]"] run_state_after [of "[SetDifficulty hard, StartGame []]"]
  by (simp add: state_after_start)

section \<open>C2: a catalog that is too small\<close>

lemma repeated_symbol:
  assumes "card (set xs) < length xs"
  shows "\<exists>e. 2 \<le> count (mset xs) e"
proof -
  from assms have "\<not> distinct xs" using distinct_card by fastforce
  then obtain e where e: "count (mset xs) e \<noteq> (if e \<in> set xs then 1 else 0)"
    unfolding distinct_count_atmost_1 by blast
  show ?thesis
  proof (cases "e \<in> set xs")
    case True
    then have "0 < count (mset xs) e" by (simp add: count_greater_zero_iff)
    moreover from e True have "count (mset xs) e \<noteq> 1" by simp
    ultimately have "2 \<le> count (mset xs) e" by arith
    then show ?thesis by blast
  next
    case False
    with e show ?thesis by (simp add: count_eq_zero_iff)
  qed
qed

text \<open>
  C2, as claimed: with fewer distinct symbols in the catalog than \<open>gridSize\<^sup>2 / 2\<close>, deck
  construction fails with a configuration error and the session does not start. The
  code has no such check. The catalog has 17 distinct symbols, hard needs 32, and picking
  hard and pressing start raises nothing: the game is started, with a deck of 36 cards.
\<close>

theorem hard_session_starts_with_small_catalog:
  "card (set CARD_EMOJIS) = 17 \<and> totalCards hard = 32
   \<and> run initial [SetDifficulty hard, StartGame []]
       = Inr (state_after [SetDifficulty hard, StartGame []])
   \<and> gameStarted (state_after [SetDifficulty hard, StartGame []])
   \<and> length (cards (state_after [SetDifficulty hard, StartGame []])) = 36"
proof -
  have "length (remdups CARD_EMOJIS) = 17"
    by (simp add: CARD_EMOJIS_def sym_def)
  then have "card (set CARD_EMOJIS) = 17"
    by (simp only: List.card_set)
  moreover have "length (cards (state_after [SetDifficulty hard, StartGame []])) = 36"
    by (simp add: state_after_start length_shuffledCards totalCards_values CARD_EMOJIS_def)
  ultimately show ?thesis
    using run_state_after [of "[SetDifficulty hard, StartGame []]"]
    by (simp add: state_after_start totalCards_values)
qed

text \<open>
  C2, amended: with fewer distinct symbols in the catalog than \<open>gridSize\<^sup>2 / 2\<close>, deck
  construction does not fail and the session starts. The deck has twice as many cards as
  the catalog has entries, at most \<open>2 * (gridSize\<^sup>2 / 2)\<close>, and it is defective: it is
  shorter than that, or some symbol is on four or more cards.
\<close>

theorem small_catalog_builds_defective_deck:
  assumes "card (set catalog) < totalCards (difficulty s)"
  shows "gameStarted (initializeGame_with catalog rnd (s\<lparr>gameStarted := True\<rparr>))
         \<and> length (cards (initializeGame_with catalog rnd (s\<lparr>gameStarted := True\<rparr>)))
             = 2 * min (length catalog) (totalCards (difficulty s))
         \<and> (length (cards (initializeGame_with catalog rnd (s\<lparr>gameStarted := True\<rparr>)))
               < 2 * totalCards (difficulty s)
             \<or> (\<exists>e. 4 \<le> occurrences
                        (cards (initializeGame_with catalog rnd (s\<lparr>gameStarted := True\<rparr>))) e))"
proof -
  let ?n = "totalCards (difficulty s)"
  let ?deck = "shuffledCards catalog (difficulty s) rnd"
  have deck: "cards (initializeGame_with catalog rnd (s\<lparr>gameStarted := True\<rparr>)) = ?deck"
    by (simp add: initializeGame_with_def)
  have "length ?deck < 2 * ?n \<or> (\<exists>e. 4 \<le> occurrences ?deck e)"
  proof (cases "length catalog < ?n")
    case True
    then show ?thesis by (simp add: length_shuffledCards)
  next
    case False
    have "card (set (take ?n catalog)) \<le> card (set catalog)"
      by (rule card_mono) (auto dest: in_set_takeD)
    with assms False have "card (set (take ?n catalog)) < length (take ?n catalog)" by simp
    from repeated_symbol [OF this] obtain e where "2 \<le> count (mset (take ?n catalog)) e"
      by blast
    then have "4 \<le> occurrences ?deck e" by (simp add: occurrences_shuffledCards)
    then show ?thesis by blast
  qed
  with deck show ?thesis
    by (simp add: length_shuffledCards) (simp add: initializeGame_with_def)
qed

theorem small_catalog_builds_defective_deck_witness:
  "card (set CARD_EMOJIS) < totalCards (difficulty (initial\<lparr>difficulty := hard\<rparr>))
   \<and> gameStarted (initializeGame_with CARD_EMOJIS []
        (initial\<lparr>difficulty := hard, gameStarted := True\<rparr>))
   \<and> length (cards (initializeGame_with CARD_EMOJIS []
        (initial\<lparr>difficulty := hard, gameStarted := True\<rparr>))) = 36"
proof -
  have "length (remdups CARD_EMOJIS) = 17"
    by (simp add: CARD_EMOJIS_def sym_def)
  then have "card (set CARD_EMOJIS) = 17"
    by (simp only: List.card_set)
  then have h: "card (set CARD_EMOJIS) < totalCards (difficulty (initial\<lparr>difficulty := hard\<rparr>))"
    by (simp add: totalCards_values)
  have "length CARD_EMOJIS = 18" by (simp add: CARD_EMOJIS_def)
  with small_catalog_builds_defective_deck [OF h, of "[]"] h show ?thesis
    by (simp add: totalCards_values)
qed

section \<open>C3: a reset while a commit is pending\<close>






section \<open>C4: a revealed or matched card cannot be selected\<close>

text \<open>
  C4. In every state, a click on a card of the grid whose \<^verbatim>\<open>isFlipped\<close> or
  \<^verbatim>\<open>isMatched\<close> is true is rejected by the guard of \<^verbatim>\<open>GameCard.handleClick\<close>, whatever
  \<^verbatim>\<open>onClick\<close> and \<^verbatim>\<open>isClickable\<close> it was given: the whole state, cards, selection,
  counters and scheduled callbacks, stays as it was.
\<close>

theorem revealed_or_matched_card_rejected:
  assumes "i < length (cards s)"
    and "isFlipped (cards s ! i) \<or> isMatched (cards s ! i)"
  shows "step s (CardClick i) = Inr s
         \<and> GameCard_handleClick (cards s ! i) f clickable s = Inr s"
  using assms by (auto simp: GameCard_handleClick_def)

theorem revealed_or_matched_card_rejected_witness:
  "8 < length (cards (state_after [StartGame [], CardClick 0, CardClick 8, TimeoutFires 0, CardClick 1]))
   \<and> isMatched (cards (state_after [StartGame [], CardClick 0, CardClick 8, TimeoutFires 0, CardClick 1]) ! 8)
   \<and> isFlipped (cards (state_after [StartGame [], CardClick 0, CardClick 8, TimeoutFires 0, CardClick 1]) ! 1)
   \<and> step (state_after [StartGame [], CardClick 0, CardClick 8, TimeoutFires 0, CardClick 1]) (CardClick 8)
       = Inr (state_after [StartGame [], CardClick 0, CardClick 8, TimeoutFires 0, CardClick 1])
   \<and> step (state_after [StartGame [], CardClick 0, CardClick 8, TimeoutFires 0, CardClick 1]) (CardClick 1)
       = Inr (state_after [StartGame [], CardClick 0, CardClick 8, TimeoutFires 0, CardClick 1])"
proof -
  let ?s = "state_after [StartGame [], CardClick 0, CardClick 8, TimeoutFires 0, CardClick 1]"
  have len: "length (cards ?s) = 16" by (simp add: game_eval)
  have m: "isMatched (cards ?s ! 8)" by (simp add: game_eval)
  have f: "isFlipped (cards ?s ! 1)" by (simp add: game_eval)
  have "step ?s (CardClick 8) = Inr ?s"
    using revealed_or_matched_card_rejected [of 8 ?s] len m by simp
  moreover have "step ?s (CardClick 1) = Inr ?s"
    using revealed_or_matched_card_rejected [of 1 ?s] len f by simp
  ultimately show ?thesis using len m f by simp
qed


section \<open>C5: no third selection while two cards are unresolved\<close>





section \<open>C6: the completion flag\<close>

lemma completionEffect_keeps_flag:
  "isGameComplete (stats s) \<Longrightarrow> isGameComplete (stats (completionEffect s))"
  by (simp add: completionEffect_def)

lemma handleCardClick_keeps_flag:
  "handleCardClick s cardId = Inr s' \<Longrightarrow> isGameComplete (stats s') = isGameComplete (stats s)"
  by (auto simp: handleCardClick_def Let_def split: if_splits option.splits)

lemma runCallback_keeps_flag:
  "isGameComplete (stats (runCallback cb s)) = isGameComplete (stats s)"
  by (cases cb) simp_all

lemma step_keeps_flag:
  assumes "isGameComplete (stats s)" and "\<not> restarts e" and "step s e = Inr s'"
  shows "isGameComplete (stats s')"
proof (cases e)
  case (CardClick i)
  with assms show ?thesis
    by (auto simp: GameCard_handleClick_def onClick_def map_sum_def
          dest!: handleCardClick_keeps_flag intro: completionEffect_keeps_flag
          split: if_splits sum.splits)
next
  case (TimeoutFires k)
  with assms show ?thesis
    by (auto simp: runCallback_keeps_flag intro!: completionEffect_keeps_flag split: if_splits)
qed (use assms in \<open>auto simp: timerTick_def split: if_splits\<close>)

text \<open>
  C6. In every state the component reaches that has a deck (every started game has
  one), the completion flag is true if and only if every card of the deck is matched;
  and from any state with the flag true, every event other than a start or a reset
  leaves the flag true.
\<close>

theorem completion_flag_iff_all_matched:
  assumes "run initial evs = Inr s"
  shows "(gameStarted s \<longrightarrow> cards s \<noteq> [])
         \<and> (cards s \<noteq> [] \<longrightarrow>
               (isGameComplete (stats s) \<longleftrightarrow> list_all isMatched (cards s)))
         \<and> (\<forall>e s'. isGameComplete (stats s) \<and> \<not> restarts e \<and> step s e = Inr s'
               \<longrightarrow> isGameComplete (stats s'))"
proof -
  from assms run_initial [of evs] have "wellformed s" by auto
  then show ?thesis
    using step_keeps_flag [of s] by (auto simp: wellformed_def)
qed


theorem completion_flag_iff_all_matched_witness:
  "run initial playthrough = Inr (state_after playthrough)
   \<and> gameStarted (state_after playthrough)
   \<and> cards (state_after playthrough) \<noteq> []
   \<and> isGameComplete (stats (state_after playthrough))
   \<and> list_all isMatched (cards (state_after playthrough))
   \<and> \<not> restarts TimerTick
   \<and> step (state_after playthrough) TimerTick = Inr (state_after playthrough)
   \<and> run initial [StartGame []] = Inr (state_after [StartGame []])
   \<and> \<not> isGameComplete (stats (state_after [StartGame []]))
   \<and> \<not> list_all isMatched (cards (state_after [StartGame []]))"
proof -
  let ?s = "state_after playthrough"
  let ?t = "state_after [StartGame []]"
  have r: "run initial playthrough = Inr ?s" by (rule run_state_after)
  have r': "run initial [StartGame []] = Inr ?t" by (rule run_state_after)
  have g: "gameStarted ?s" by (simp add: playthrough_def game_eval)
  have c: "isGameComplete (stats ?s)" by (simp add: playthrough_def game_eval)
  have t: "step ?s TimerTick = Inr ?s" using c by (simp add: timerTick_def)
  have g': "gameStarted ?t" by (simp add: game_eval)
  have c': "\<not> isGameComplete (stats ?t)" by (simp add: game_eval)
  from completion_flag_iff_all_matched [OF r] g c
  have "cards ?s \<noteq> []" "list_all isMatched (cards ?s)" by blast+
  moreover from completion_flag_iff_all_matched [OF r'] g' c'
  have "\<not> list_all isMatched (cards ?t)" by blast
  ultimately show ?thesis using r r' g c t c' by simp
qed

section \<open>C7: the session clock\<close>

lemma handleCardClick_keeps_time:
  "handleCardClick s cardId = Inr s' \<Longrightarrow> timeElapsed (stats s') = timeElapsed (stats s)"
  by (auto simp: handleCardClick_def Let_def split: if_splits option.splits)

lemma runCallback_keeps_time:
  "timeElapsed (stats (runCallback cb s)) = timeElapsed (stats s)"
  by (cases cb) simp_all

lemma step_keeps_time:
  assumes "e \<noteq> TimerTick" and "\<not> restarts e" and "step s e = Inr s'"
  shows "timeElapsed (stats s') = timeElapsed (stats s)"
proof (cases e)
  case (CardClick i)
  with assms show ?thesis
    by (auto simp: GameCard_handleClick_def onClick_def map_sum_def completionEffect_fields
          dest!: handleCardClick_keeps_time split: if_splits sum.splits)
next
  case (TimeoutFires k)
  with assms show ?thesis
    by (auto simp: runCallback_keeps_time completionEffect_fields split: if_splits)
qed (use assms in \<open>auto split: if_splits\<close>)

text \<open>
  C7. The second is the event \<open>TimerTick\<close>, one firing of the interval. In a started
  game that is not complete it adds 1 to the elapsed time and changes nothing else; once
  the completion flag is true, and while no game is started, it changes nothing. A reset
  and a start put the elapsed time back to 0. No other event changes the elapsed time.
\<close>

theorem session_clock:
  "(gameStarted s \<and> \<not> isGameComplete (stats s) \<longrightarrow>
      step s TimerTick = Inr (s\<lparr>stats := (stats s)\<lparr>timeElapsed := timeElapsed (stats s) + 1\<rparr>\<rparr>))
   \<and> (isGameComplete (stats s) \<or> \<not> gameStarted s \<longrightarrow> step s TimerTick = Inr s)
   \<and> (gameStarted s \<longrightarrow>
        (\<exists>s'. step s (ResetGame rnd) = Inr s' \<and> timeElapsed (stats s') = 0))
   \<and> (\<not> gameStarted s \<longrightarrow>
        (\<exists>s'. step s (StartGame rnd) = Inr s' \<and> timeElapsed (stats s') = 0))
   \<and> (e \<noteq> TimerTick \<and> \<not> restarts e \<and> step s e = Inr s' \<longrightarrow>
        timeElapsed (stats s') = timeElapsed (stats s))"
proof -
  have "timeElapsed (stats (completionEffect (initializeGame_with CARD_EMOJIS rnd t))) = 0" for t
    by (simp add: completionEffect_initializeGame_with) (simp add: initializeGame_with_def)
  then show ?thesis
    using step_keeps_time [of e s s']
    by (simp add: timerTick_def resetGame_def startGame_def initializeGame_def)
qed

theorem session_clock_witness:
  "gameStarted (state_after [StartGame [], TimerTick, TimerTick])
   \<and> \<not> isGameComplete (stats (state_after [StartGame [], TimerTick, TimerTick]))
   \<and> timeElapsed (stats (state_after [StartGame [], TimerTick, TimerTick])) = 2
   \<and> map_sum (\<lambda>e. e) (\<lambda>s. timeElapsed (stats s))
        (step (state_after [StartGame [], TimerTick, TimerTick]) TimerTick) = Inr 3
   \<and> (\<exists>s'. step (state_after [StartGame [], TimerTick, TimerTick]) (ResetGame []) = Inr s'
          \<and> timeElapsed (stats s') = 0)
   \<and> CardClick 0 \<noteq> TimerTick \<and> \<not> restarts (CardClick 0)
   \<and> map_sum (\<lambda>e. e) (\<lambda>s. timeElapsed (stats s))
        (step (state_after [StartGame [], TimerTick, TimerTick]) (CardClick 0)) = Inr 2
   \<and> isGameComplete (stats (state_after playthrough))
   \<and> step (state_after playthrough) TimerTick = Inr (state_after playthrough)
   \<and> \<not> gameStarted initial
   \<and> (\<exists>s'. step initial (StartGame []) = Inr s' \<and> timeElapsed (stats s') = 0)"
proof -
  let ?s = "state_after [StartGame [], TimerTick, TimerTick]"
  let ?p = "state_after playthrough"
  have g: "gameStarted ?s" and c: "\<not> isGameComplete (stats ?s)"
    and n: "timeElapsed (stats ?s) = 2"
    by (simp_all add: game_eval)
  have p: "isGameComplete (stats ?p)" by (simp add: playthrough_def game_eval)
  have i: "\<not> gameStarted initial" by (simp add: initial_def)
  obtain s1 where s1: "step ?s (CardClick 0) = Inr s1"
    using wellformed_step [OF wellformed_state_after] by blast
  have "map_sum (\<lambda>e. e) (\<lambda>s. timeElapsed (stats s)) (step ?s TimerTick) = Inr 3"
    using session_clock [of ?s "[]" TimerTick ?s] g c n by simp
  moreover have "\<exists>s'. step ?s (ResetGame []) = Inr s' \<and> timeElapsed (stats s') = 0"
    using session_clock [of ?s "[]" TimerTick ?s] g by blast
  moreover have "map_sum (\<lambda>e. e) (\<lambda>s. timeElapsed (stats s)) (step ?s (CardClick 0)) = Inr 2"
    using session_clock [of ?s "[]" "CardClick 0" s1] s1 n by simp
  moreover have "step ?p TimerTick = Inr ?p"
    using session_clock [of ?p "[]" TimerTick ?p] p by blast
  moreover have "\<exists>s'. step initial (StartGame []) = Inr s' \<and> timeElapsed (stats s') = 0"
    using session_clock [of initial "[]" TimerTick initial] i by blast
  ultimately show ?thesis using g c n p i by simp
qed

section \<open>C8: the move counter\<close>

lemma runCallback_keeps_moves: "moves (stats (runCallback cb s)) = moves (stats s)"
  by (cases cb) simp_all

text \<open>
  C8. In every state the component reaches, a click that the grid accepts (the game is
  started, clicking is enabled, the card is neither revealed nor matched) raises no
  error and selects the card; at most one card was selected before. If it is the first
  card of a pair the move counter stays as it is, if it is the second the move counter
  grows by exactly 1, whether the two symbols match or not. The commit that follows
  leaves the move counter as it is.
\<close>

theorem move_counter_per_pair:
  assumes "run initial evs = Inr s"
    and "gameStarted s" and "i < length (cards s)" and "isClickable s"
    and "\<not> isFlipped (cards s ! i)" and "\<not> isMatched (cards s ! i)"
  shows "\<exists>s'. step s (CardClick i) = Inr s'
           \<and> length (flippedCards s) \<le> 1
           \<and> flippedCards s' = flippedCards s @ [i]
           \<and> (flippedCards s = [] \<longrightarrow> moves (stats s') = moves (stats s))
           \<and> (length (flippedCards s) = 1 \<longrightarrow> moves (stats s') = moves (stats s) + 1)
           \<and> (\<forall>k s''. step s' (TimeoutFires k) = Inr s'' \<longrightarrow>
                 moves (stats s'') = moves (stats s'))"
proof -
  from assms(1) run_initial [of evs] have wf: "wellformed s" by auto
  then have len: "length (flippedCards s) \<le> 1" using assms(4) by (simp add: wellformed_def)
  from handleCardClick_wellformed [OF wf assms(3,4)] obtain s1 where
    s1: "handleCardClick s (card_id (cards s ! i)) = Inr s1"
    and sel: "flippedCards s1 = flippedCards s @ [i]"
    and mv: "moves (stats s1) = (if flippedCards s = [] then moves (stats s) else moves (stats s) + 1)"
    by blast
  let ?s' = "completionEffect s1"
  have st: "step s (CardClick i) = Inr ?s'"
    using assms(2-6) len s1 by (simp add: GameCard_handleClick_def onClick_def)
  have fire: "moves (stats s'') = moves (stats ?s')" if "step ?s' (TimeoutFires k) = Inr s''"
    for k s''
    using that by (auto simp: completionEffect_fields runCallback_keeps_moves split: if_splits)
  have "flippedCards s \<noteq> []" if "length (flippedCards s) = 1" using that by auto
  with st len sel mv fire show ?thesis
    by (intro exI [of _ ?s']) (simp add: completionEffect_fields)
qed


theorem move_counter_per_pair_witness:
  "run initial [StartGame []] = Inr (state_after [StartGame []])
   \<and> gameStarted (state_after [StartGame []])
   \<and> 0 < length (cards (state_after [StartGame []]))
   \<and> isClickable (state_after [StartGame []])
   \<and> \<not> isFlipped (cards (state_after [StartGame []]) ! 0)
   \<and> \<not> isMatched (cards (state_after [StartGame []]) ! 0)
   \<and> flippedCards (state_after [StartGame []]) = []
   \<and> (\<exists>s'. step (state_after [StartGame []]) (CardClick 0) = Inr s'
          \<and> moves (stats s') = moves (stats (state_after [StartGame []])))
   \<and> run initial [StartGame [], CardClick 0] = Inr (state_after [StartGame [], CardClick 0])
   \<and> gameStarted (state_after [StartGame [], CardClick 0])
   \<and> 1 < length (cards (state_after [StartGame [], CardClick 0]))
   \<and> isClickable (state_after [StartGame [], CardClick 0])
   \<and> \<not> isFlipped (cards (state_after [StartGame [], CardClick 0]) ! 1)
   \<and> \<not> isMatched (cards (state_after [StartGame [], CardClick 0]) ! 1)
   \<and> length (flippedCards (state_after [StartGame [], CardClick 0])) = 1
   \<and> (\<exists>s'. step (state_after [StartGame [], CardClick 0]) (CardClick 1) = Inr s'
          \<and> moves (stats s') = moves (stats (state_after [StartGame [], CardClick 0])) + 1)"
proof -
  let ?a = "state_after [StartGame []]"
  let ?b = "state_after [StartGame [], CardClick 0]"
  have ra: "run initial [StartGame []] = Inr ?a" by (rule run_state_after)
  have rb: "run initial [StartGame [], CardClick 0] = Inr ?b" by (rule run_state_after)
  have a: "gameStarted ?a" "0 < length (cards ?a)" "isClickable ?a"
    "\<not> isFlipped (cards ?a ! 0)" "\<not> isMatched (cards ?a ! 0)"
    by (simp_all add: game_eval)
  have a0: "flippedCards ?a = []" by (simp add: game_eval)
  have b: "gameStarted ?b" "1 < length (cards ?b)" "isClickable ?b"
    "\<not> isFlipped (cards ?b ! 1)" "\<not> isMatched (cards ?b ! 1)"
    by (simp_all add: game_eval)
  have b1: "length (flippedCards ?b) = 1" by (simp add: game_eval)
  from move_counter_per_pair [OF ra a] a0
  have "\<exists>s'. step ?a (CardClick 0) = Inr s' \<and> moves (stats s') = moves (stats ?a)"
    by blast
  moreover from move_counter_per_pair [OF rb b] b1
  have "\<exists>s'. step ?b (CardClick 1) = Inr s' \<and> moves (stats s') = moves (stats ?b) + 1"
    by blast
  ultimately show ?thesis using ra rb a a0 b b1 by simp
qed


section \<open>C9: changing the difficulty\<close>

text \<open>
  C9. The button Change Difficulty only leaves the game screen; the session is replaced
  when the player, having chosen a difficulty, starts again. After these three events,
  from any state, the deck is a fresh deck for the chosen difficulty, the selection is
  empty and the move counter, the match counter, the elapsed time and the completion
  flag are those of a new session: nothing of the previous deck and counters is left.
\<close>

theorem change_difficulty_replaces_session:
  "step s ChangeDifficulty = Inr (if gameStarted s then s\<lparr>gameStarted := False\<rparr> else s)
   \<and> run s [ChangeDifficulty, SetDifficulty d, StartGame rnd]
       = Inr (s\<lparr>cards := shuffledCards CARD_EMOJIS d rnd,
                flippedCards := [],
                stats := \<lparr>moves = 0, matches = 0, timeElapsed = 0, isGameComplete = False\<rparr>,
                difficulty := d,
                gameStarted := True,
                isClickable := True\<rparr>)"
proof -
  have "completionEffect (initializeGame_with CARD_EMOJIS rnd (t\<lparr>difficulty := d, gameStarted := True\<rparr>))
          = t\<lparr>cards := shuffledCards CARD_EMOJIS d rnd, flippedCards := [],
               stats := \<lparr>moves = 0, matches = 0, timeElapsed = 0, isGameComplete = False\<rparr>,
               difficulty := d, gameStarted := True, isClickable := True\<rparr>" for t
    by (simp add: completionEffect_initializeGame_with) (simp add: initializeGame_with_def)
  from this [of s] this [of "s\<lparr>gameStarted := False\<rparr>"] show ?thesis
    by (simp add: startGame_def initializeGame_def)
qed

theorem change_difficulty_replaces_session_witness:
  "map_sum (\<lambda>e. e) (\<lambda>s. (length (cards s), matchedIds s, stats s, difficulty s))
       (run initial [StartGame [], CardClick 0, CardClick 8, TimeoutFires 0, TimerTick])
     = Inr (16, [0, 8], \<lparr>moves = 1, matches = 1, timeElapsed = 1, isGameComplete = False\<rparr>, easy)
   \<and> map_sum (\<lambda>e. e) (\<lambda>s. (length (cards s), matchedIds s, stats s, difficulty s))
       (run (state_after [StartGame [], CardClick 0, CardClick 8, TimeoutFires 0, TimerTick])
          [ChangeDifficulty, SetDifficulty medium, StartGame []])
     = Inr (36, [], \<lparr>moves = 0, matches = 0, timeElapsed = 0, isGameComplete = False\<rparr>, medium)"
proof -
  let ?s = "state_after [StartGame [], CardClick 0, CardClick 8, TimeoutFires 0, TimerTick]"
  have "map_sum (\<lambda>e. e) (\<lambda>s. (length (cards s), matchedIds s, stats s, difficulty s))
          (run initial [StartGame [], CardClick 0, CardClick 8, TimeoutFires 0, TimerTick])
        = Inr (16, [0, 8], \<lparr>moves = 1, matches = 1, timeElapsed = 1, isGameComplete = False\<rparr>, easy)"
    by (simp add: game_eval)
  moreover have "filter isMatched (shuffledCards CARD_EMOJIS medium []) = []"
    by (simp add: filter_empty_conv unmatched_shuffledCards)
  then have "map_sum (\<lambda>e. e) (\<lambda>s. (length (cards s), matchedIds s, stats s, difficulty s))
          (run ?s [ChangeDifficulty, SetDifficulty medium, StartGame []])
        = Inr (36, [], \<lparr>moves = 0, matches = 0, timeElapsed = 0, isGameComplete = False\<rparr>, medium)"
    using change_difficulty_replaces_session [of ?s medium "[]"]
    by (simp add: matchedIds_def length_shuffledCards totalCards_values CARD_EMOJIS_def)
  ultimately show ?thesis by (rule conjI)
qed

section \<open>C10: the frame of a mismatch commit\<close>

lemma flip_back_two:
  assumes ids: "map card_id cs = [0..<length cs]"
    and "a < length cs" and "b < length cs"
  shows "map (\<lambda>c. if card_id c \<in> set [a, b] then c\<lparr>isFlipped := False\<rparr> else c) cs
           = cs[a := (cs ! a)\<lparr>isFlipped := False\<rparr>, b := (cs ! b)\<lparr>isFlipped := False\<rparr>]"
proof (rule nth_equalityI)
  fix j
  assume "j < length (map (\<lambda>c. if card_id c \<in> set [a, b] then c\<lparr>isFlipped := False\<rparr> else c) cs)"
  then have j: "j < length cs" by simp
  with ids have "card_id (cs ! j) = j" by (metis add_0 nth_map nth_upt)
  with j assms(2,3)
  show "map (\<lambda>c. if card_id c \<in> set [a, b] then c\<lparr>isFlipped := False\<rparr> else c) cs ! j
          = cs[a := (cs ! a)\<lparr>isFlipped := False\<rparr>, b := (cs ! b)\<lparr>isFlipped := False\<rparr>] ! j"
    by (auto simp: nth_list_update)
qed simp

lemma pendingPairs_handleCardClick:
  assumes wf: "wellformed s" and pp: "pendingPairs s"
    and i: "i < length (cards s)" and cl: "isClickable s"
    and h: "handleCardClick s i = Inr s'"
  shows "pendingPairs s'"
proof -
  from wf have ids: "map card_id (cards s) = [0..<length (cards s)]"
    and fl: "\<forall>x \<in> set (flippedCards s). x < length (cards s)"
    by (simp_all add: wellformed_def)
  from wf cl have len: "length (flippedCards s) \<le> 1" by (simp add: wellformed_def)
  show ?thesis
  proof (cases "flippedCards s")
    case Nil
    with h pp show ?thesis
      by (auto simp: handleCardClick_def pendingPairs_def Let_def)
  next
    case (Cons a as)
    with len have as: "as = []" by simp
    from fl Cons have a: "a < length (cards s)" by simp
    have "a \<noteq> i" if "emoji (cards s ! a) \<noteq> emoji (cards s ! i)" using that by auto
    with h pp Cons as find_card_index [OF ids a] find_card_index [OF ids i] show ?thesis
      by (auto simp: handleCardClick_def pendingPairs_def Let_def split: if_splits)
  qed
qed

lemma pendingPairs_step:
  assumes wf: "wellformed s" and pp: "pendingPairs s" and st: "step s e = Inr s'"
  shows "pendingPairs s'"
proof (cases e)
  case (CardClick i)
  show ?thesis
  proof (cases "gameStarted s \<and> i < length (cards s) \<and> isClickable s
                 \<and> \<not> isFlipped (cards s ! i) \<and> \<not> isMatched (cards s ! i)")
    case True
    then have i: "i < length (cards s)" and cl: "isClickable s" by simp_all
    from wf have "card_id (cards s ! i) = i"
      using i by (metis add_0 nth_map nth_upt wellformed_def)
    with True st CardClick obtain s1 where
      s1: "handleCardClick s i = Inr s1" and s': "s' = s1 \<or> s' = completionEffect s1"
      by (auto simp: GameCard_handleClick_def onClick_def map_sum_def split: if_splits sum.splits)
    from pendingPairs_handleCardClick [OF wf pp i cl s1] s' show ?thesis
      by (auto simp: pendingPairs_def completionEffect_fields)
  next
    case False
    with st CardClick pp show ?thesis
      by (auto simp: GameCard_handleClick_def split: if_splits)
  qed
next
  case (TimeoutFires k)
  have keep: "timeouts (runCallback cb u) = timeouts u" for cb u
    by (cases cb) simp_all
  show ?thesis
    unfolding pendingPairs_def
  proof (intro ballI)
    fix t
    assume "t \<in> set (timeouts s')"
    with st TimeoutFires have "t \<in> set (timeouts s)"
      by (auto simp: completionEffect_fields keep dest: in_set_takeD in_set_dropD split: if_splits)
    with pp show "case callback t of MatchFound ids \<Rightarrow> length ids = 2
                  | NoMatch ids \<Rightarrow> length ids = 2 \<and> distinct ids"
      by (simp add: pendingPairs_def)
  qed
qed (use st pp in \<open>auto simp: pendingPairs_def startGame_def resetGame_def initializeGame_def
       initializeGame_with_def completionEffect_fields timerTick_def split: if_splits\<close>)

lemma pendingPairs_run:
  "wellformed s \<Longrightarrow> pendingPairs s \<Longrightarrow> run s evs = Inr s' \<Longrightarrow> pendingPairs s'"
proof (induction evs arbitrary: s)
  case Nil
  then show ?case by simp
next
  case (Cons e evs)
  from wellformed_step [OF Cons.prems(1), of e] obtain s1
    where s1: "step s e = Inr s1" "wellformed s1" by blast
  from pendingPairs_step [OF Cons.prems(1,2) s1(1)] have "pendingPairs s1" .
  from Cons.IH [OF s1(2) this] Cons.prems(3) s1(1) show ?case by simp
qed

lemma pending_mismatch_ids:
  assumes "run initial evs = Inr s" and "t \<in> set (timeouts s)" and "callback t = NoMatch ids"
  shows "\<exists>a b. ids = [a, b] \<and> a \<noteq> b"
proof -
  have "pendingPairs initial" by (simp add: pendingPairs_def initial_def)
  from pendingPairs_run [OF wellformed_initial this assms(1)] assms(2,3)
  have "length ids = 2 \<and> distinct ids" by (auto simp: pendingPairs_def)
  then show ?thesis
    by (cases ids; cases "tl ids") auto
qed


text \<open>
  C10. When the callback of a mismatch runs, every card keeps its id, its symbol and its
  \<^verbatim>\<open>isMatched\<close>; a card whose id is one of the two captured ids has \<^verbatim>\<open>isFlipped\<close>
  false afterwards, and every other card is unchanged. Where the ids of the deck are its
  positions and the two captured ids are two different cards of the deck, the new deck
  is the old one with exactly these two cards flipped back (in every state the component
  reaches the callback of a mismatch holds two different ids, \<open>pending_mismatch_ids\<close>).
  The counters stay as they are and the selection is emptied.
\<close>

theorem mismatch_commit_frame:
  assumes "k < length (timeouts s)" and "callback (timeouts s ! k) = NoMatch ids"
  shows "\<exists>s'. step s (TimeoutFires k) = Inr s'
           \<and> length (cards s') = length (cards s)
           \<and> (\<forall>j < length (cards s).
                 card_id (cards s' ! j) = card_id (cards s ! j)
                 \<and> emoji (cards s' ! j) = emoji (cards s ! j)
                 \<and> isMatched (cards s' ! j) = isMatched (cards s ! j)
                 \<and> (card_id (cards s ! j) \<in> set ids \<longrightarrow> \<not> isFlipped (cards s' ! j))
                 \<and> (card_id (cards s ! j) \<notin> set ids \<longrightarrow> cards s' ! j = cards s ! j))
           \<and> (\<forall>a b. ids = [a, b] \<and> a \<noteq> b \<and> a < length (cards s) \<and> b < length (cards s)
                   \<and> map card_id (cards s) = [0..<length (cards s)] \<longrightarrow>
                 cards s' = (cards s)[a := (cards s ! a)\<lparr>isFlipped := False\<rparr>,
                                      b := (cards s ! b)\<lparr>isFlipped := False\<rparr>])
           \<and> moves (stats s') = moves (stats s)
           \<and> matches (stats s') = matches (stats s)
           \<and> timeElapsed (stats s') = timeElapsed (stats s)
           \<and> flippedCards s' = []"
proof -
  let ?rest = "take k (timeouts s) @ drop (Suc k) (timeouts s)"
  let ?s' = "completionEffect (runCallback (NoMatch ids) (s\<lparr>timeouts := ?rest\<rparr>))"
  let ?cs' = "map (\<lambda>c. if card_id c \<in> set ids then c\<lparr>isFlipped := False\<rparr> else c) (cards s)"
  have st: "step s (TimeoutFires k) = Inr ?s'" using assms by simp
  have cs: "cards ?s' = ?cs'" by (simp add: completionEffect_fields)
  have len: "length (cards ?s') = length (cards s)" by (simp add: completionEffect_fields)
  have frame: "\<forall>j < length (cards s).
                 card_id (cards ?s' ! j) = card_id (cards s ! j)
                 \<and> emoji (cards ?s' ! j) = emoji (cards s ! j)
                 \<and> isMatched (cards ?s' ! j) = isMatched (cards s ! j)
                 \<and> (card_id (cards s ! j) \<in> set ids \<longrightarrow> \<not> isFlipped (cards ?s' ! j))
                 \<and> (card_id (cards s ! j) \<notin> set ids \<longrightarrow> cards ?s' ! j = cards s ! j)"
    by (simp add: completionEffect_fields)
  have two: "\<forall>a b. ids = [a, b] \<and> a \<noteq> b \<and> a < length (cards s) \<and> b < length (cards s)
                   \<and> map card_id (cards s) = [0..<length (cards s)] \<longrightarrow>
               cards ?s' = (cards s)[a := (cards s ! a)\<lparr>isFlipped := False\<rparr>,
                                    b := (cards s ! b)\<lparr>isFlipped := False\<rparr>]"
  proof (intro allI impI)
    fix a b
    assume h: "ids = [a, b] \<and> a \<noteq> b \<and> a < length (cards s) \<and> b < length (cards s)
                 \<and> map card_id (cards s) = [0..<length (cards s)]"
    then have "?cs' = map (\<lambda>c. if card_id c \<in> set [a, b] then c\<lparr>isFlipped := False\<rparr> else c) (cards s)"
      by simp
    also have "\<dots> = (cards s)[a := (cards s ! a)\<lparr>isFlipped := False\<rparr>,
                            b := (cards s ! b)\<lparr>isFlipped := False\<rparr>]"
      using h by (intro flip_back_two) simp_all
    finally have "?cs' = (cards s)[a := (cards s ! a)\<lparr>isFlipped := False\<rparr>,
                                   b := (cards s ! b)\<lparr>isFlipped := False\<rparr>]" .
    then show "cards ?s' = (cards s)[a := (cards s ! a)\<lparr>isFlipped := False\<rparr>,
                                     b := (cards s ! b)\<lparr>isFlipped := False\<rparr>]"
      by (rule trans [OF cs])
  qed
  have mv: "moves (stats ?s') = moves (stats s)"
    and ma: "matches (stats ?s') = matches (stats s)"
    and ti: "timeElapsed (stats ?s') = timeElapsed (stats s)"
    and se: "flippedCards ?s' = []"
    by (simp_all add: completionEffect_fields)
  show ?thesis
    by (rule exI [of _ ?s']) (intro conjI st len frame two mv ma ti se)
qed


theorem mismatch_commit_frame_witness:
  "0 < length (timeouts (state_after [StartGame [], CardClick 0, CardClick 1]))
   \<and> callback (timeouts (state_after [StartGame [], CardClick 0, CardClick 1]) ! 0) = NoMatch [0, 1]
   \<and> map isFlipped (cards (state_after [StartGame [], CardClick 0, CardClick 1]))
       = [True, True, False, False, False, False, False, False,
          False, False, False, False, False, False, False, False]
   \<and> (\<exists>s'. step (state_after [StartGame [], CardClick 0, CardClick 1]) (TimeoutFires 0) = Inr s'
          \<and> cards s' = (cards (state_after [StartGame [], CardClick 0, CardClick 1]))
               [0 := (cards (state_after [StartGame [], CardClick 0, CardClick 1]) ! 0)\<lparr>isFlipped := False\<rparr>,
                1 := (cards (state_after [StartGame [], CardClick 0, CardClick 1]) ! 1)\<lparr>isFlipped := False\<rparr>]
          \<and> moves (stats s') = moves (stats (state_after [StartGame [], CardClick 0, CardClick 1])))"
proof -
  let ?s = "state_after [StartGame [], CardClick 0, CardClick 1]"
  have h1: "0 < length (timeouts ?s)" by (simp add: game_eval)
  have h2: "callback (timeouts ?s ! 0) = NoMatch [0, 1]" by (simp add: game_eval)
  have fl: "map isFlipped (cards ?s)
       = [True, True, False, False, False, False, False, False,
          False, False, False, False, False, False, False, False]"
    by (simp add: game_eval)
  have len: "(0::nat) \<noteq> 1 \<and> 0 < length (cards ?s) \<and> 1 < length (cards ?s)"
    by (simp add: game_eval)
  have ids: "map card_id (cards ?s) = [0..<length (cards ?s)]"
    using wellformed_state_after [of "[StartGame [], CardClick 0, CardClick 1]"]
    by (simp add: wellformed_def)
  from mismatch_commit_frame [OF h1 h2] len ids
  have "\<exists>s'. step ?s (TimeoutFires 0) = Inr s'
          \<and> cards s' = (cards ?s)[0 := (cards ?s ! 0)\<lparr>isFlipped := False\<rparr>,
                                   1 := (cards ?s ! 1)\<lparr>isFlipped := False\<rparr>]
          \<and> moves (stats s') = moves (stats ?s)"
    by blast
  with h1 h2 fl show ?thesis by blast
qed


end
